theory Spec2Isabelle
  imports Complex_Main "HOL-Library.Log_Nat"
begin

section \<open>The amortization engine of mortgage\_app.py\<close>

text \<open>
  The two functions of the source, \<open>calculate_monthly_payment\<close> and
  \<open>create_amortization_schedule\<close>, and the summary statistics computed by the main
  block. The loan term (an \<open>int\<close> in the source, which \<open>range\<close> requires) is an
  \<open>int\<close>. A float is a \<open>real\<close>, and every function takes the arithmetic of floats
  as its first argument: how the exact result of an operation is rounded, and the
  power function. With the arithmetic \<open>exact\<close> nothing is rounded; with
  \<open>binary64_arith\<close> the result of every operation is rounded to the nearest IEEE
  double, as Python does. A raise of the interpreter is a value \<open>Inl\<close> of the result.
\<close>

subsection \<open>Errors and the arithmetic of floats\<close>

datatype error = ZeroDivisionError

record arith =
  rnd :: "real \<Rightarrow> real"
  pw :: "real \<Rightarrow> int \<Rightarrow> real"

text \<open>Exact arithmetic: the real numbers.\<close>

definition exact :: arith where
  "exact = \<lparr>rnd = (\<lambda>x. x), pw = (\<lambda>x n. x powi n)\<rparr>"

text \<open>
  IEEE 754 double precision, rounding to nearest with ties to even: 53 significant
  bits, the smallest exponent of a normal number -1022, below it the fixed spacing
  \<open>2 powi (- 1074)\<close> of the subnormal numbers. \<open>rne\<close> rounds to the nearest integer,
  a tie to the even one; \<open>ilog2 x\<close> is the integer part of the binary logarithm of a
  positive \<open>x\<close>. Results beyond the largest double (where Python gives \<open>inf\<close> or
  raises \<open>OverflowError\<close>) are not modelled. The power of the C library is taken as
  correctly rounded; the theorems on doubles use it only where it is exact, for a base
  of 1 and for a power of two. A principal the page passes as an \<open>int\<close> is taken
  as the real number it is: an \<open>int\<close> of magnitude at most \<open>2 ^ 53\<close> converts to
  a double without rounding, and the page allows at most 10000000.
\<close>

definition rne :: "real \<Rightarrow> int" where
  "rne x =
     (let f = \<lfloor>x\<rfloor>; d = x - of_int f
      in if d < 1 / 2 then f else if 1 / 2 < d then f + 1 else if even f then f else f + 1)"

definition ilog2 :: "real \<Rightarrow> int" where
  "ilog2 x = (if 1 \<le> x then bitlen \<lfloor>x\<rfloor> - 1 else - bitlen (\<lceil>1 / x\<rceil> - 1))"

definition binary64 :: "real \<Rightarrow> real" where
  "binary64 x =
     (if x = 0 then 0
      else let e = max (ilog2 \<bar>x\<bar>) (- 1022); u = 2 powi (e - 52)
           in of_int (rne (x / u)) * u)"

definition binary64_arith :: arith where
  "binary64_arith = \<lparr>rnd = binary64, pw = (\<lambda>x n. binary64 (x powi n))\<rparr>"

text \<open>True division \<open>a / b\<close>: raises when the divisor is zero.\<close>

definition py_truediv :: "arith \<Rightarrow> real \<Rightarrow> real \<Rightarrow> error + real" where
  "py_truediv ar a b = (if b = 0 then Inl ZeroDivisionError else Inr (rnd ar (a / b)))"

text \<open>
  \<open>x ** n\<close> for a float \<open>x\<close> and an integer \<open>n\<close>: zero to a negative power raises.
\<close>

definition py_pow :: "arith \<Rightarrow> real \<Rightarrow> int \<Rightarrow> error + real" where
  "py_pow ar x n = (if x = 0 \<and> n < 0 then Inl ZeroDivisionError else Inr (pw ar x n))"

subsection \<open>calculate\_monthly\_payment\<close>

definition calculate_monthly_payment ::
  "arith \<Rightarrow> real \<Rightarrow> real \<Rightarrow> int \<Rightarrow> error + real" where
  "calculate_monthly_payment ar principal' annual_rate years =
     (let monthly_rate = rnd ar (rnd ar (annual_rate / 100) / 12);
          num_payments = years * 12
      in if monthly_rate = 0 then py_truediv ar principal' (real_of_int num_payments)
         else (case py_pow ar (rnd ar (1 + monthly_rate)) num_payments of
                 Inl e \<Rightarrow> Inl e
               | Inr compound \<Rightarrow>
                   py_truediv ar (rnd ar (principal' * rnd ar (monthly_rate * compound)))
                     (rnd ar (compound - 1))))"

subsection \<open>create\_amortization\_schedule\<close>

text \<open>The variables the loop of the source updates: the running balance and the five lists.\<close>

record loop_state =
  remaining_balance :: real
  payment_numbers :: "int list"
  payment_amounts :: "real list"
  principal_payments :: "real list"
  interest_payments :: "real list"
  remaining_balances :: "real list"

text \<open>The data frame the function returns: five columns, one row per payment.\<close>

record schedule =
  Payment_Number :: "int list"
  Payment_Amount :: "real list"
  Principal_Payment :: "real list"
  Interest_Payment :: "real list"
  Remaining_Balance :: "real list"

definition loop_init :: "real \<Rightarrow> loop_state" where
  "loop_init principal' =
     \<lparr>remaining_balance = principal', payment_numbers = [], payment_amounts = [],
      principal_payments = [], interest_payments = [], remaining_balances = []\<rparr>"

text \<open>One iteration of \<open>for payment_num in range(1, num_payments + 1)\<close>.\<close>

definition loop_body :: "arith \<Rightarrow> real \<Rightarrow> real \<Rightarrow> int \<Rightarrow> loop_state \<Rightarrow> loop_state" where
  "loop_body ar monthly_payment monthly_rate payment_num st =
     (let interest_payment = rnd ar (remaining_balance st * monthly_rate);
          principal_payment = rnd ar (monthly_payment - interest_payment);
          new_balance = rnd ar (remaining_balance st - principal_payment)
      in \<lparr>remaining_balance = new_balance,
          payment_numbers = payment_numbers st @ [payment_num],
          payment_amounts = payment_amounts st @ [monthly_payment],
          principal_payments = principal_payments st @ [principal_payment],
          interest_payments = interest_payments st @ [interest_payment],
          remaining_balances = remaining_balances st @ [max 0 new_balance]\<rparr>)"

definition run_loop :: "arith \<Rightarrow> real \<Rightarrow> real \<Rightarrow> int \<Rightarrow> real \<Rightarrow> loop_state" where
  "run_loop ar monthly_payment monthly_rate num_payments principal' =
     fold (loop_body ar monthly_payment monthly_rate) [1..num_payments]
       (loop_init principal')"

definition create_amortization_schedule ::
  "arith \<Rightarrow> real \<Rightarrow> real \<Rightarrow> int \<Rightarrow> error + schedule" where
  "create_amortization_schedule ar principal' annual_rate years =
     (case calculate_monthly_payment ar principal' annual_rate years of
        Inl e \<Rightarrow> Inl e
      | Inr monthly_payment \<Rightarrow>
          (let monthly_rate = rnd ar (rnd ar (annual_rate / 100) / 12);
               num_payments = years * 12;
               st = run_loop ar monthly_payment monthly_rate num_payments principal'
           in Inr \<lparr>Payment_Number = payment_numbers st,
                   Payment_Amount = payment_amounts st,
                   Principal_Payment = principal_payments st,
                   Interest_Payment = interest_payments st,
                   Remaining_Balance = remaining_balances st\<rparr>))"

subsection \<open>The summary statistics of the main block\<close>

text \<open>
  What the main block computes from the three inputs before it renders anything: the
  monthly payment, the schedule, \<open>total_payments\<close>, \<open>total_interest\<close> and
  \<open>interest_percentage\<close>, under the labels of the four metrics of the page.
\<close>

record metrics =
  Monthly_Payment :: real
  Schedule :: schedule
  Total_Paid :: real
  Total_Interest :: real
  Interest_Principal :: real

definition main_calculation :: "arith \<Rightarrow> real \<Rightarrow> real \<Rightarrow> int \<Rightarrow> error + metrics" where
  "main_calculation ar loan_principal annual_rate loan_years =
     (case calculate_monthly_payment ar loan_principal annual_rate loan_years of
        Inl e \<Rightarrow> Inl e
      | Inr monthly_payment \<Rightarrow>
          (case create_amortization_schedule ar loan_principal annual_rate loan_years of
             Inl e \<Rightarrow> Inl e
           | Inr sched \<Rightarrow>
               (let total_payments =
                      rnd ar (rnd ar (monthly_payment * real_of_int loan_years) * 12);
                    total_interest = rnd ar (total_payments - loan_principal)
                in case py_truediv ar total_interest loan_principal of
                     Inl e \<Rightarrow> Inl e
                   | Inr ratio \<Rightarrow>
                       Inr \<lparr>Monthly_Payment = monthly_payment, Schedule = sched,
                            Total_Paid = total_payments, Total_Interest = total_interest,
                            Interest_Principal = rnd ar (ratio * 100)\<rparr>)))"

subsection \<open>The vocabulary of the specification\<close>

text \<open>The inputs the specification calls valid.\<close>

definition valid_terms :: "real \<Rightarrow> real \<Rightarrow> int \<Rightarrow> bool" where
  "valid_terms principal' annual_rate years \<longleftrightarrow>
     0 < principal' \<and> 0 \<le> annual_rate \<and> 1 \<le> years"

text \<open>
  The running balance as the specification's recurrence gives it, nothing clamped:
  \<open>remainingBalance(0) = principal\<close> and
  \<open>remainingBalance(n) = remainingBalance(n-1) - principalPortion(n)\<close>, where
  \<open>principalPortion(n) = monthlyPayment - interestPortion(n)\<close> and
  \<open>interestPortion(n) = remainingBalance(n-1) * monthlyRate\<close>, each operation in the
  given arithmetic.
\<close>

fun running_balance :: "arith \<Rightarrow> real \<Rightarrow> real \<Rightarrow> real \<Rightarrow> nat \<Rightarrow> real" where
  "running_balance ar p m r 0 = p"
| "running_balance ar p m r (Suc n) =
     rnd ar (running_balance ar p m r n -
       rnd ar (m - rnd ar (running_balance ar p m r n * r)))"

text \<open>The closed form of the fixed payment, with the number of payments a natural number.\<close>

definition annuity :: "real \<Rightarrow> real \<Rightarrow> nat \<Rightarrow> real" where
  "annuity p r n = p * (r * (1 + r) ^ n) / ((1 + r) ^ n - 1)"

section \<open>The loop, iteration by iteration\<close>

lemma run_loop_0: "run_loop ar m r 0 p = loop_init p"
  by (simp add: run_loop_def)

lemma run_loop_nat: "run_loop ar m r n p = run_loop ar m r (int (nat n)) p"
  by (cases "0 \<le> n") (simp_all add: run_loop_def)

lemma upto_snoc: "[1..int (Suc k)] = [1..int k] @ [int (Suc k)]"
  using upto_rec2 [of 1 "int (Suc k)"] by simp

lemma run_loop_Suc:
  "run_loop ar m r (int (Suc k)) p =
     loop_body ar m r (int (Suc k)) (run_loop ar m r (int k) p)"
  by (simp only: run_loop_def upto_snoc fold_append fold_simps comp_apply id_apply)

lemma run_loop_balance:
  "remaining_balance (run_loop ar m r (int k) p) = running_balance ar p m r k"
proof (induction k)
  case 0
  show ?case by (simp add: run_loop_0 loop_init_def)
next
  case (Suc k)
  then show ?case by (simp only: run_loop_Suc) (simp add: loop_body_def Let_def)
qed

lemma run_loop_numbers: "payment_numbers (run_loop ar m r (int k) p) = [1..int k]"
proof (induction k)
  case 0
  show ?case by (simp add: run_loop_0 loop_init_def)
next
  case (Suc k)
  then show ?case
    by (simp only: run_loop_Suc upto_snoc) (simp add: loop_body_def Let_def)
qed

lemma run_loop_amounts: "payment_amounts (run_loop ar m r (int k) p) = replicate k m"
proof (induction k)
  case 0
  show ?case by (simp add: run_loop_0 loop_init_def)
next
  case (Suc k)
  then show ?case
    by (simp only: run_loop_Suc) (simp add: loop_body_def Let_def replicate_append_same)
qed

lemma run_loop_interest:
  "interest_payments (run_loop ar m r (int k) p) =
     map (\<lambda>i. rnd ar (running_balance ar p m r i * r)) [0..<k]"
proof (induction k)
  case 0
  show ?case by (simp add: run_loop_0 loop_init_def)
next
  case (Suc k)
  then show ?case
    by (simp only: run_loop_Suc) (simp add: loop_body_def Let_def run_loop_balance)
qed

lemma run_loop_principal:
  "principal_payments (run_loop ar m r (int k) p) =
     map (\<lambda>i. rnd ar (m - rnd ar (running_balance ar p m r i * r))) [0..<k]"
proof (induction k)
  case 0
  show ?case by (simp add: run_loop_0 loop_init_def)
next
  case (Suc k)
  then show ?case
    by (simp only: run_loop_Suc) (simp add: loop_body_def Let_def run_loop_balance)
qed

lemma run_loop_balances:
  "remaining_balances (run_loop ar m r (int k) p) =
     map (\<lambda>i. max 0 (running_balance ar p m r (Suc i))) [0..<k]"
proof (induction k)
  case 0
  show ?case by (simp add: run_loop_0 loop_init_def)
next
  case (Suc k)
  then show ?case
    by (simp only: run_loop_Suc) (simp add: loop_body_def Let_def run_loop_balance)
qed

text \<open>The schedule a successful call returns, column by column, in any arithmetic.\<close>

lemma create_columns:
  assumes "calculate_monthly_payment ar p a y = Inr m"
  shows "create_amortization_schedule ar p a y =
           Inr \<lparr>Payment_Number = [1..int (nat (y * 12))],
                Payment_Amount = replicate (nat (y * 12)) m,
                Principal_Payment =
                  map (\<lambda>i. rnd ar (m - rnd ar (running_balance ar p m
                         (rnd ar (rnd ar (a / 100) / 12)) i * rnd ar (rnd ar (a / 100) / 12))))
                    [0..<nat (y * 12)],
                Interest_Payment =
                  map (\<lambda>i. rnd ar (running_balance ar p m
                         (rnd ar (rnd ar (a / 100) / 12)) i * rnd ar (rnd ar (a / 100) / 12)))
                    [0..<nat (y * 12)],
                Remaining_Balance =
                  map (\<lambda>i. max 0 (running_balance ar p m
                         (rnd ar (rnd ar (a / 100) / 12)) (Suc i)))
                    [0..<nat (y * 12)]\<rparr>"
proof -
  have "run_loop ar m (rnd ar (rnd ar (a / 100) / 12)) (y * 12) p =
          run_loop ar m (rnd ar (rnd ar (a / 100) / 12)) (int (nat (y * 12))) p"
    by (rule run_loop_nat)
  then show ?thesis
    by (simp only: create_amortization_schedule_def assms sum.case Let_def run_loop_numbers
        run_loop_amounts run_loop_principal run_loop_interest run_loop_balances)
qed

lemma schedule_rows_any:
  assumes "calculate_monthly_payment ar p a y = Inr m"
  shows "\<exists>s. create_amortization_schedule ar p a y = Inr s \<and>
           Payment_Number s = [1..y * 12] \<and>
           length (Payment_Number s) = nat (y * 12) \<and>
           length (Payment_Amount s) = nat (y * 12) \<and>
           length (Principal_Payment s) = nat (y * 12) \<and>
           length (Interest_Payment s) = nat (y * 12) \<and>
           length (Remaining_Balance s) = nat (y * 12) \<and>
           (\<forall>i. i < nat (y * 12) \<longrightarrow>
              Payment_Amount s ! i = m \<and>
              Interest_Payment s ! i =
                rnd ar (running_balance ar p m (rnd ar (rnd ar (a / 100) / 12)) i *
                  rnd ar (rnd ar (a / 100) / 12)) \<and>
              Principal_Payment s ! i = rnd ar (m - Interest_Payment s ! i) \<and>
              Remaining_Balance s ! i =
                max 0 (running_balance ar p m (rnd ar (rnd ar (a / 100) / 12)) (Suc i)))"
proof -
  have "[1..int (nat (y * 12))] = [1..y * 12]"
    by (cases "0 \<le> y * 12") simp_all
  then show ?thesis
    by (simp add: create_columns [OF assms] del: running_balance.simps)
qed

lemma calc_of_create:
  assumes "create_amortization_schedule ar p a y = Inr s"
  shows "\<exists>m. calculate_monthly_payment ar p a y = Inr m"
  using assms by (cases "calculate_monthly_payment ar p a y")
    (simp_all add: create_amortization_schedule_def)

lemma recorded_balances_nonneg:
  assumes "create_amortization_schedule ar p a y = Inr s"
  shows "\<forall>b \<in> set (Remaining_Balance s). 0 \<le> b"
proof -
  from assms obtain m where m: "calculate_monthly_payment ar p a y = Inr m"
    using calc_of_create by blast
  from create_columns [OF m] assms show ?thesis by auto
qed

subsection \<open>The main block, part by part\<close>

text \<open>
  In any arithmetic, what the main block returns: the payment and the schedule of the
  two functions, \<open>total_payments = monthly_payment * loan_years * 12\<close> with each of
  the two products rounded, \<open>total_interest = total_payments - loan_principal\<close>, and
  a payment column that repeats the monthly payment.
\<close>

lemma main_parts:
  assumes "main_calculation ar p a y = Inr r"
  shows "calculate_monthly_payment ar p a y = Inr (Monthly_Payment r) \<and>
         create_amortization_schedule ar p a y = Inr (Schedule r) \<and>
         Total_Paid r = rnd ar (rnd ar (Monthly_Payment r * real_of_int y) * 12) \<and>
         Total_Interest r = rnd ar (Total_Paid r - p) \<and>
         Payment_Amount (Schedule r) = replicate (nat (y * 12)) (Monthly_Payment r)"
proof -
  from assms obtain m where m: "calculate_monthly_payment ar p a y = Inr m"
    by (cases "calculate_monthly_payment ar p a y") (simp_all add: main_calculation_def)
  from assms m obtain s where s: "create_amortization_schedule ar p a y = Inr s"
    by (cases "create_amortization_schedule ar p a y") (simp_all add: main_calculation_def)
  have cols: "Payment_Amount s = replicate (nat (y * 12)) m"
    using create_columns [OF m] s by simp
  from assms have "Monthly_Payment r = m \<and> Schedule r = s \<and>
      Total_Paid r = rnd ar (rnd ar (m * real_of_int y) * 12) \<and>
      Total_Interest r = rnd ar (rnd ar (rnd ar (m * real_of_int y) * 12) - p)"
    by (auto simp: main_calculation_def m s Let_def py_truediv_def split: if_splits)
  with m s cols show ?thesis by simp
qed

lemma main_returns:
  assumes "calculate_monthly_payment ar p a y = Inr m" "p \<noteq> 0"
  shows "\<exists>r. main_calculation ar p a y = Inr r"
proof -
  obtain s where "create_amortization_schedule ar p a y = Inr s"
    using schedule_rows_any [OF assms(1)] by blast
  then show ?thesis
    using assms by (simp add: main_calculation_def Let_def py_truediv_def)
qed


section \<open>Exact arithmetic\<close>

lemma rnd_exact [simp]: "rnd exact x = x"
  by (simp add: exact_def)

lemma pw_exact: "pw exact x n = x powi n"
  by (simp add: exact_def)

subsection \<open>The algebra of the balance\<close>

lemma principal_part_step:
  "m - running_balance exact p m r (Suc k) * r = (1 + r) * (m - running_balance exact p m r k * r)"
  by (simp add: algebra_simps)

lemma principal_part_closed:
  "m - running_balance exact p m r k * r = (1 + r) ^ k * (m - p * r)"
proof (induction k)
  case 0
  show ?case by simp
next
  case (Suc k)
  have "m - running_balance exact p m r (Suc k) * r = (1 + r) * (m - running_balance exact p m r k * r)"
    by (rule principal_part_step)
  also have "\<dots> = (1 + r) * ((1 + r) ^ k * (m - p * r))"
    by (simp only: Suc.IH)
  finally show ?case by simp
qed

lemma balance_telescope:
  "running_balance exact p m r k = p - (\<Sum>i<k. m - running_balance exact p m r i * r)"
  by (induction k) simp_all

lemma balance_closed:
  "running_balance exact p m r k = p - (m - p * r) * (\<Sum>i<k. (1 + r) ^ i)"
proof -
  have "(\<Sum>i<k. m - running_balance exact p m r i * r) = (\<Sum>i<k. (m - p * r) * (1 + r) ^ i)"
    by (rule sum.cong) (simp_all add: principal_part_closed)
  then show ?thesis
    by (simp add: balance_telescope [of p m r k] sum_distrib_left)
qed

lemma balance_zero_rate: "running_balance exact p m 0 k = p - real k * m"
  by (simp add: balance_closed)

lemma geometric_rate:
  "r \<noteq> 0 \<Longrightarrow> (\<Sum>i<k. (1 + r) ^ i) =
     ((1 + r) ^ k - 1) / (r::real)"
  using geometric_sum [of "1 + r" k] by simp

lemma annuity_excess:
  assumes "(1 + r) ^ n \<noteq> 1"
  shows "annuity p r n - p * r = p * r / ((1 + r) ^ n - 1)"
  using assms by (simp add: annuity_def field_simps)

lemma balance_annuity_final:
  assumes "r \<noteq> 0" "(1 + r) ^ n \<noteq> 1"
  shows "running_balance exact p (annuity p r n) r n = 0"
  using assms by (simp add: balance_closed geometric_rate annuity_excess)

lemma balance_straight_final:
  "n \<noteq> 0 \<Longrightarrow> running_balance exact p (p / real n) 0 n =
     0"
  by (simp add: balance_zero_rate)

subsection \<open>The monthly payment on valid inputs\<close>

lemma power_rate_gt_one: "0 < (r::real) \<Longrightarrow> 0 < n \<Longrightarrow> 1 < (1 + r) ^ n"
  by (rule one_less_power) simp_all

lemma py_pow_nonneg: "0 \<le> n \<Longrightarrow> py_pow exact x n = Inr (x ^ nat n)"
  by (simp add: py_pow_def pw_exact power_int_def)

lemma calc_zero_rate:
  "y \<noteq> 0 \<Longrightarrow> calculate_monthly_payment exact p 0 y = Inr (p / real_of_int (y * 12))"
  by (simp add: calculate_monthly_payment_def py_truediv_def)

lemma calc_pos_rate:
  assumes "0 < a" "1 \<le> y"
  shows "calculate_monthly_payment exact p a y = Inr (annuity p (a / 100 / 12) (nat (y * 12)))"
proof -
  have r: "0 < a / 100 / 12" using assms by simp
  have n: "0 < nat (y * 12)" using assms by simp
  have "1 < (1 + a / 100 / 12) ^ nat (y * 12)"
    using r n by (rule power_rate_gt_one)
  then have d: "(1 + a / 100 / 12) ^ nat (y * 12) - 1 \<noteq> 0" by simp
  have pw: "py_pow exact (1 + a / 100 / 12) (y * 12) = Inr ((1 + a / 100 / 12) ^ nat (y * 12))"
    using assms by (intro py_pow_nonneg) simp
  have nz: "a / 100 / 12 \<noteq> 0" using r by simp
  show ?thesis
    unfolding calculate_monthly_payment_def Let_def
    using nz d by (simp only: rnd_exact pw sum.case py_truediv_def if_False annuity_def)
qed

lemma calc_valid_rate:
  assumes "0 \<le> a" "1 \<le> y"
  shows "\<exists>m. calculate_monthly_payment exact p a y = Inr m"
proof (cases "a = 0")
  case True
  then show ?thesis using assms by (simp add: calc_zero_rate)
next
  case False
  then have "0 < a" using assms by simp
  then show ?thesis using assms by (simp add: calc_pos_rate)
qed

text \<open>
  In exact arithmetic the denominator of the annuity formula is positive for every
  positive rate and every term of at least a year, and so is the payment for a positive
  principal.
\<close>

lemma denominator_positive_exact:
  assumes "0 < a" "1 \<le> y"
  shows "\<exists>c m. py_pow exact (1 + a / 100 / 12) (y * 12) = Inr c \<and> 0 < c - 1 \<and>
           calculate_monthly_payment exact p a y = Inr m \<and> (0 < p \<longrightarrow> 0 < m)"
proof -
  let ?r = "a / 100 / 12" and ?n = "nat (y * 12)"
  have r: "0 < ?r" using assms by simp
  have n: "0 < ?n" using assms by simp
  have q: "1 < (1 + ?r) ^ ?n" using r n by (rule power_rate_gt_one)
  have c: "py_pow exact (1 + ?r) (y * 12) = Inr ((1 + ?r) ^ ?n)"
    using assms by (intro py_pow_nonneg) simp
  have m: "calculate_monthly_payment exact p a y = Inr (annuity p ?r ?n)"
    using assms by (rule calc_pos_rate)
  have pos: "0 < annuity p ?r ?n" if "0 < p"
    unfolding annuity_def using that r q by (intro divide_pos_pos mult_pos_pos) simp_all
  from c q m pos show ?thesis by simp
qed

lemma columns_length:
  assumes "calculate_monthly_payment exact p a y = Inr m"
  shows "\<exists>s. create_amortization_schedule exact p a y = Inr s \<and>
           Payment_Number s = [1..y * 12] \<and>
           length (Payment_Number s) = nat (y * 12) \<and>
           length (Payment_Amount s) = nat (y * 12) \<and>
           length (Principal_Payment s) = nat (y * 12) \<and>
           length (Interest_Payment s) = nat (y * 12) \<and>
           length (Remaining_Balance s) = nat (y * 12)"
proof -
  have "[1..int (nat (y * 12))] = [1..y * 12]"
    by (cases "0 \<le> y * 12") simp_all
  then show ?thesis
    by (simp add: create_columns [OF assms])
qed

subsection \<open>The balance on valid inputs\<close>

lemma sum_list_upt: "sum_list (map f [0..<n]) = (\<Sum>i<n. (f i :: real))"
  by (induction n) simp_all

lemma payment_exceeds_interest:
  assumes "valid_terms p a y" "calculate_monthly_payment exact p a y = Inr m"
  shows "0 < m - p * (a / 100 / 12)"
proof (cases "a = 0")
  case True
  have "0 < p" "1 \<le> y" using assms(1) by (simp_all add: valid_terms_def)
  moreover from this have "m = p / real_of_int (y * 12)"
    using assms(2) True by (simp add: calc_zero_rate)
  ultimately show ?thesis using True by simp
next
  case False
  let ?r = "a / 100 / 12" and ?n = "nat (y * 12)"
  have a: "0 < a" and y: "1 \<le> y" and p: "0 < p"
    using assms(1) False by (simp_all add: valid_terms_def)
  have r: "0 < ?r" using a by simp
  have "0 < ?n" using y by simp
  with r have q: "1 < (1 + ?r) ^ ?n" by (rule power_rate_gt_one)
  have m: "m = annuity p ?r ?n"
    using assms(2) calc_pos_rate [OF a y, of p] by simp
  have "annuity p ?r ?n - p * ?r = p * ?r / ((1 + ?r) ^ ?n - 1)"
    using q by (intro annuity_excess) simp
  moreover have "0 < p * ?r / ((1 + ?r) ^ ?n - 1)"
    using p r q by (intro divide_pos_pos mult_pos_pos) simp_all
  ultimately show ?thesis by (simp only: m)
qed

lemma final_balance_zero:
  assumes "valid_terms p a y" "calculate_monthly_payment exact p a y = Inr m"
  shows "running_balance exact p m (a / 100 / 12) (nat (y * 12)) = 0"
proof (cases "a = 0")
  case True
  have y: "1 \<le> y" using assms(1) by (simp add: valid_terms_def)
  then have n: "nat (y * 12) \<noteq> 0" by simp
  have "real_of_int (y * 12) = real (nat (y * 12))" using y by simp
  then have "m = p / real (nat (y * 12))"
    using assms(2) True y calc_zero_rate [of y p] by simp
  then show ?thesis using True balance_straight_final [OF n, of p] by simp
next
  case False
  let ?r = "a / 100 / 12" and ?n = "nat (y * 12)"
  have a: "0 < a" and y: "1 \<le> y"
    using assms(1) False by (simp_all add: valid_terms_def)
  have r: "0 < ?r" using a by simp
  have "0 < ?n" using y by simp
  with r have q: "1 < (1 + ?r) ^ ?n" by (rule power_rate_gt_one)
  have m: "m = annuity p ?r ?n"
    using assms(2) calc_pos_rate [OF a y, of p] by simp
  have "running_balance exact p (annuity p ?r ?n) ?r ?n = 0"
    using r q by (intro balance_annuity_final) simp_all
  then show ?thesis by (simp only: m)
qed

lemma balance_decreases:
  assumes "0 < m - p * r" "0 \<le> r"
  shows "running_balance exact p m r (Suc k) < running_balance exact p m r k"
proof -
  have "0 < (1 + r) ^ k * (m - p * r)"
    using assms by (intro mult_pos_pos zero_less_power) simp_all
  then have "0 < m - running_balance exact p m r k * r"
    by (simp only: principal_part_closed)
  then show ?thesis by simp
qed

lemma balance_antimono:
  assumes "0 < m - p * r" "0 \<le> r" "j \<le> k"
  shows "running_balance exact p m r k \<le> running_balance exact p m r j"
  using assms(3)
proof (induction k)
  case 0
  then show ?case by simp
next
  case (Suc k)
  show ?case
  proof (cases "j = Suc k")
    case True
    then show ?thesis by simp
  next
    case False
    with Suc.prems have "j \<le> k" by simp
    then have "running_balance exact p m r k \<le> running_balance exact p m r j" by (rule Suc.IH)
    moreover have "running_balance exact p m r (Suc k) < running_balance exact p m r k"
      using assms(1,2) by (rule balance_decreases)
    ultimately show ?thesis by simp
  qed
qed

lemma schedule_rows:
  assumes "calculate_monthly_payment exact p a y = Inr m"
  shows "\<exists>s. create_amortization_schedule exact p a y = Inr s \<and>
           length (Remaining_Balance s) = nat (y * 12) \<and>
           (\<forall>i. i < nat (y * 12) \<longrightarrow>
              Payment_Amount s ! i = m \<and>
              Interest_Payment s ! i = running_balance exact p m (a / 100 / 12) i * (a / 100 / 12) \<and>
              Principal_Payment s ! i =
                m - running_balance exact p m (a / 100 / 12) i * (a / 100 / 12) \<and>
              Remaining_Balance s ! i = max 0 (running_balance exact p m (a / 100 / 12) (Suc i))) \<and>
           sum_list (Principal_Payment s) =
             p - running_balance exact p m (a / 100 / 12) (nat (y * 12)) \<and>
           sum_list (Payment_Amount s) = real (nat (y * 12)) * m \<and>
           (nat (y * 12) \<noteq> 0 \<longrightarrow>
              last (Remaining_Balance s) =
                max 0 (running_balance exact p m (a / 100 / 12) (nat (y * 12))))"
proof -
  let ?r = "a / 100 / 12" and ?n = "nat (y * 12)"
  have total: "sum_list (map (\<lambda>i. m - running_balance exact p m ?r i * ?r) [0..<?n]) =
          p - running_balance exact p m ?r ?n"
    by (simp only: sum_list_upt balance_telescope [of p m ?r ?n] diff_diff_eq2
        add_diff_cancel_left' add.commute)
  have lst: "last (map (\<lambda>i. max 0 (running_balance exact p m ?r (Suc i))) [0..<?n]) =
          max 0 (running_balance exact p m ?r ?n)" if "?n \<noteq> 0"
  proof -
    from that obtain k where k: "?n = Suc k" by (cases ?n) simp_all
    show ?thesis by (simp only: k) (simp del: running_balance.simps)
  qed
  show ?thesis
    using total lst
    by (simp add: create_columns [OF assms] sum_list_replicate del: running_balance.simps)
qed

section \<open>Double precision\<close>

subsection \<open>Rounding to the nearest double\<close>

lemma rne_of_int: "rne (of_int k) = k"
  by (simp add: rne_def)

lemma rne_lower: "of_int n \<le> z \<Longrightarrow> n \<le> rne z"
proof -
  assume "of_int n \<le> z"
  then have "n \<le> \<lfloor>z\<rfloor>" by (simp add: le_floor_iff)
  moreover have "\<lfloor>z\<rfloor> \<le> rne z" by (simp add: rne_def Let_def)
  ultimately show ?thesis by simp
qed

lemma rne_upper: "z \<le> of_int n \<Longrightarrow> rne z \<le> n"
proof (cases "z = of_int \<lfloor>z\<rfloor>")
  case True
  assume "z \<le> of_int n"
  then have "\<lfloor>z\<rfloor> \<le> n" using True by linarith
  moreover have "rne z = \<lfloor>z\<rfloor>" using True rne_of_int [of "\<lfloor>z\<rfloor>"] by simp
  ultimately show ?thesis by simp
next
  case False
  assume "z \<le> of_int n"
  moreover have "z \<noteq> of_int n" using False by auto
  ultimately have "z < of_int n" by simp
  then have "\<lfloor>z\<rfloor> < n" by (simp add: floor_less_iff)
  moreover have "rne z \<le> \<lfloor>z\<rfloor> + 1" by (simp add: rne_def Let_def)
  ultimately show ?thesis by simp
qed

lemma ilog2_bounds:
  assumes "0 < x"
  shows "2 powi (ilog2 x) \<le> x \<and> x < 2 powi (ilog2 x + 1)"
proof (cases "1 \<le> x")
  case True
  then have a: "0 < \<lfloor>x\<rfloor>" by simp
  let ?b = "bitlen \<lfloor>x\<rfloor>"
  from bitlen_bounds [OF a] have lo: "2 ^ nat (?b - 1) \<le> \<lfloor>x\<rfloor>" and hi: "\<lfloor>x\<rfloor> < 2 ^ nat ?b"
    by simp_all
  have b1: "1 \<le> ?b" using a by (simp add: bitlen_alt_def)
  have "(2::real) ^ nat (?b - 1) = real_of_int (2 ^ nat (?b - 1))" by simp
  also have "\<dots> \<le> real_of_int \<lfloor>x\<rfloor>" using lo by (simp only: of_int_le_iff)
  also have "\<dots> \<le> x" by simp
  finally have l: "2 ^ nat (?b - 1) \<le> x" .
  have "\<lfloor>x\<rfloor> + 1 \<le> 2 ^ nat ?b" using hi by simp
  then have "real_of_int (\<lfloor>x\<rfloor> + 1) \<le> real_of_int (2 ^ nat ?b)" by (simp only: of_int_le_iff)
  then have "real_of_int \<lfloor>x\<rfloor> + 1 \<le> 2 ^ nat ?b" by simp
  moreover have "x < real_of_int \<lfloor>x\<rfloor> + 1" by linarith
  ultimately have h: "x < 2 ^ nat ?b" by (rule less_le_trans [rotated])
  have "ilog2 x = ?b - 1" using True by (simp add: ilog2_def)
  moreover have "(2::real) powi (?b - 1) = 2 ^ nat (?b - 1)" using b1 by (simp add: power_int_def)
  moreover have "(2::real) powi (?b - 1 + 1) = 2 ^ nat ?b" using b1 by (simp add: power_int_def)
  ultimately show ?thesis using l h by simp
next
  case False
  then have x1: "x < 1" by simp
  let ?c = "\<lceil>1 / x\<rceil>"
  let ?a = "?c - 1"
  let ?b = "bitlen ?a"
  have inv: "1 < 1 / x" using assms x1 by simp
  then have a: "0 < ?a" by linarith
  from bitlen_bounds [OF a] have lo: "2 ^ nat (?b - 1) \<le> ?a" and hi: "?a < 2 ^ nat ?b"
    by simp_all
  have b1: "1 \<le> ?b" using a by (simp add: bitlen_alt_def)
  have c1: "real_of_int ?a < 1 / x" by linarith
  have c2: "1 / x \<le> real_of_int ?c" by linarith
  have "?c \<le> 2 ^ nat ?b" using hi by simp
  then have "real_of_int ?c \<le> real_of_int (2 ^ nat ?b)" by (simp only: of_int_le_iff)
  with c2 have "1 / x \<le> real_of_int (2 ^ nat ?b)" by (rule order_trans)
  then have "1 / x \<le> 2 ^ nat ?b" by simp
  then have l: "1 / 2 ^ nat ?b \<le> x" using assms
    by (simp add: field_simps)
  have "real_of_int (2 ^ nat (?b - 1)) \<le> real_of_int ?a" using lo by (simp only: of_int_le_iff)
  then have "real_of_int (2 ^ nat (?b - 1)) < 1 / x" using c1 by (rule le_less_trans)
  then have "2 ^ nat (?b - 1) < 1 / x" by simp
  then have h: "x < 1 / 2 ^ nat (?b - 1)" using assms
    by (simp add: field_simps)
  have i: "ilog2 x = - ?b" using False by (simp add: ilog2_def)
  have p1: "(2::real) powi (- ?b) = 1 / 2 ^ nat ?b" using b1
    by (simp add: power_int_def field_simps)
  have "- ?b + 1 = - (?b - 1)" by simp
  then have p2: "(2::real) powi (- ?b + 1) = 1 / 2 ^ nat (?b - 1)" using b1
    by (simp add: power_int_def field_simps)
  show ?thesis using l h by (simp only: i p1 p2)
qed

lemma ilog2_unique:
  assumes "2 powi e \<le> x" "x < 2 powi (e + 1)"
  shows "ilog2 x = e"
proof -
  have "(0::real) < 2 powi e" by simp
  then have pos: "0 < x" using assms(1) by (rule less_le_trans)
  from ilog2_bounds [OF pos] have b: "2 powi (ilog2 x) \<le> x" "x < 2 powi (ilog2 x + 1)"
    by simp_all
  have "e < ilog2 x + 1"
  proof (rule ccontr)
    assume "\<not> e < ilog2 x + 1"
    then have "(2::real) powi (ilog2 x + 1) \<le> 2 powi e"
      by (intro power_int_increasing) simp_all
    then show False using assms(1) b(2) by simp
  qed
  moreover have "ilog2 x < e + 1"
  proof (rule ccontr)
    assume "\<not> ilog2 x < e + 1"
    then have "(2::real) powi (e + 1) \<le> 2 powi (ilog2 x)"
      by (intro power_int_increasing) simp_all
    then show False using assms(2) b(1) by simp
  qed
  ultimately show ?thesis by simp
qed

lemma two_powi_add: "(2::real) powi a * 2 powi b = 2 powi (a + b)"
  by (simp add: power_int_add)

lemma two_powi_53: "real_of_int (2 ^ 53) * 2 powi (e - 52) = 2 powi (e + 1)"
proof -
  have "real_of_int (2 ^ 53) = 2 powi 53" by simp
  then have "real_of_int (2 ^ 53) * 2 powi (e - 52) = 2 powi 53 * 2 powi (e - 52)"
    by (simp only:)
  also have "\<dots> = 2 powi (53 + (e - 52))" by (rule two_powi_add)
  also have "53 + (e - 52) = e + 1" by simp
  finally show ?thesis .
qed

lemma two_powi_52: "real_of_int (2 ^ 52) * 2 powi (e - 52) = 2 powi e"
proof -
  have "real_of_int (2 ^ 52) = 2 powi 52" by simp
  then have "real_of_int (2 ^ 52) * 2 powi (e - 52) = 2 powi 52 * 2 powi (e - 52)"
    by (simp only:)
  also have "\<dots> = 2 powi (52 + (e - 52))" by (rule two_powi_add)
  also have "52 + (e - 52) = e" by simp
  finally show ?thesis .
qed

text \<open>Numbers of the form k * 2 powi (e - 52) with at most 53 bits are fixed points.\<close>

lemma binary64_fixed_small:
  assumes "- 1022 \<le> e" "\<bar>k\<bar> < 2 ^ 53" "2 ^ 52 \<le> \<bar>k\<bar> \<or> e = - 1022"
  shows "binary64 (of_int k * 2 powi (e - 52)) = of_int k * 2 powi (e - 52)"
proof (cases "k = 0")
  case True
  then show ?thesis by (simp add: binary64_def)
next
  case False
  let ?u = "(2::real) powi (e - 52)"
  let ?y = "of_int k * ?u"
  have u: "0 < ?u" by simp
  have y0: "?y \<noteq> 0" using False by simp
  have ay: "\<bar>?y\<bar> = of_int \<bar>k\<bar> * ?u" by (simp add: abs_mult)
  have hi: "\<bar>?y\<bar> < 2 powi (e + 1)"
  proof -
    have "real_of_int \<bar>k\<bar> < real_of_int (2 ^ 53)" using assms(2) by (simp only: of_int_less_iff)
    then have "real_of_int \<bar>k\<bar> * ?u < real_of_int (2 ^ 53) * ?u"
      using u by (simp only: mult_less_cancel_right_pos)
    also have "\<dots> = 2 powi (e + 1)" by (rule two_powi_53)
    finally show ?thesis by (simp only: ay)
  qed
  have e: "max (ilog2 \<bar>?y\<bar>) (- 1022) = e"
  proof (cases "2 ^ 52 \<le> \<bar>k\<bar>")
    case True
    then have "real_of_int (2 ^ 52) \<le> real_of_int \<bar>k\<bar>" by (simp only: of_int_le_iff)
    then have "real_of_int (2 ^ 52) * ?u \<le> real_of_int \<bar>k\<bar> * ?u"
      using u by (simp only: mult_le_cancel_right_pos)
    then have "2 powi e \<le> \<bar>?y\<bar>" by (simp only: ay two_powi_52)
    then have "ilog2 \<bar>?y\<bar> = e" using hi by (rule ilog2_unique)
    then show ?thesis using assms(1) by simp
  next
    case False
    then have e': "e = - 1022" using assms(3) by simp
    have pos: "0 < \<bar>?y\<bar>" using y0 by simp
    have "ilog2 \<bar>?y\<bar> \<le> e"
    proof (rule ccontr)
      assume "\<not> ilog2 \<bar>?y\<bar> \<le> e"
      then have "(2::real) powi (e + 1) \<le> 2 powi (ilog2 \<bar>?y\<bar>)"
        by (intro power_int_increasing) simp_all
      moreover have "2 powi (ilog2 \<bar>?y\<bar>) \<le> \<bar>?y\<bar>" using ilog2_bounds [OF pos] by simp
      ultimately show False using hi by simp
    qed
    then show ?thesis using e' by simp
  qed
  have "?y / ?u = of_int k" by simp
  then have "rne (?y / ?u) = k" by (simp only: rne_of_int)
  then show ?thesis
    using y0 by (simp only: binary64_def Let_def e if_False)
qed

lemma binary64_fixed:
  assumes "- 1022 \<le> e" "\<bar>k\<bar> \<le> 2 ^ 53" "2 ^ 52 \<le> \<bar>k\<bar> \<or> e = - 1022"
  shows "binary64 (of_int k * 2 powi (e - 52)) = of_int k * 2 powi (e - 52)"
proof (cases "\<bar>k\<bar> < 2 ^ 53")
  case True
  with assms(1) show ?thesis using assms(3) by (rule binary64_fixed_small)
next
  case False
  then have k: "\<bar>k\<bar> = 2 ^ 53" using assms(2) by simp
  then consider "k = 2 ^ 53" | "k = - (2 ^ 53)" by (auto simp: abs_if split: if_splits)
  then have half: "k = 2 * (k div 2) \<and> \<bar>k div 2\<bar> = 2 ^ 52" by cases simp_all
  have k2: "real_of_int k = real_of_int (k div 2) * 2" using half by linarith
  have up: "2 * (2::real) powi (e - 52) = 2 powi (e + 1 - 52)"
    using two_powi_add [of 1 "e - 52"] by (simp add: add.commute)
  have "real_of_int k * 2 powi (e - 52) = real_of_int (k div 2) * (2 * 2 powi (e - 52))"
    by (simp only: k2 mult.assoc)
  then have eq: "real_of_int k * 2 powi (e - 52) =
      real_of_int (k div 2) * 2 powi (e + 1 - 52)"
    by (simp only: up)
  have "binary64 (of_int (k div 2) * 2 powi (e + 1 - 52)) =
          of_int (k div 2) * 2 powi (e + 1 - 52)"
    using assms(1) half by (intro binary64_fixed_small) simp_all
  then show ?thesis by (simp only: eq)
qed

lemma binary64_idem: "binary64 (binary64 x) = binary64 x"
proof (cases "x = 0")
  case True
  then show ?thesis by (simp add: binary64_def)
next
  case False
  define e where "e = max (ilog2 \<bar>x\<bar>) (- 1022)"
  define u where "u = (2::real) powi (e - 52)"
  define k where "k = rne (x / u)"
  have b: "binary64 x = of_int k * 2 powi (e - 52)"
    using False by (simp add: binary64_def Let_def e_def u_def k_def)
  have e: "- 1022 \<le> e" by (simp add: e_def)
  have u: "0 < u" by (simp add: u_def)
  have pos: "0 < \<bar>x\<bar>" using False by simp
  note lg = ilog2_bounds [OF pos]
  have "\<bar>x\<bar> < 2 powi (ilog2 \<bar>x\<bar> + 1)" using lg by simp
  also have "\<dots> \<le> 2 powi (e + 1)"
    by (intro power_int_increasing) (simp_all add: e_def)
  also have "\<dots> = real_of_int (2 ^ 53) * u" by (simp only: u_def two_powi_53)
  finally have "\<bar>x\<bar> / u < real_of_int (2 ^ 53)" using u by (simp add: field_simps)
  then have "\<bar>x / u\<bar> < real_of_int (2 ^ 53)" using u by (simp del: of_int_power)
  then have az: "x / u < real_of_int (2 ^ 53) \<and> - (x / u) < real_of_int (2 ^ 53)"
    by (simp only: abs_less_iff)
  have neg53: "real_of_int (- (2 ^ 53)) = - real_of_int (2 ^ 53)" by (rule of_int_minus)
  have "x / u \<le> real_of_int (2 ^ 53)" using az by linarith
  then have "k \<le> 2 ^ 53" unfolding k_def by (rule rne_upper)
  moreover have "real_of_int (- (2 ^ 53)) \<le> x / u" using az neg53 by linarith
  then have "- (2 ^ 53) \<le> k" unfolding k_def by (rule rne_lower)
  ultimately have k53: "\<bar>k\<bar> \<le> 2 ^ 53" by simp
  have low: "2 ^ 52 \<le> \<bar>k\<bar> \<or> e = - 1022"
  proof (cases "- 1022 \<le> ilog2 \<bar>x\<bar>")
    case True
    then have "e = ilog2 \<bar>x\<bar>" by (simp add: e_def)
    then have "2 powi e \<le> \<bar>x\<bar>" using lg by simp
    then have "real_of_int (2 ^ 52) * u \<le> \<bar>x\<bar>" by (simp only: u_def two_powi_52)
    then have "real_of_int (2 ^ 52) \<le> \<bar>x\<bar> / u" using u by (simp add: field_simps)
    then have "real_of_int (2 ^ 52) \<le> \<bar>x / u\<bar>" using u by (simp del: of_int_power)
    moreover have "real_of_int (- (2 ^ 52)) = - real_of_int (2 ^ 52)" by (rule of_int_minus)
    ultimately consider "real_of_int (2 ^ 52) \<le> x / u" | "x / u \<le> real_of_int (- (2 ^ 52))"
      by (cases "0 \<le> x / u") linarith+
    then have "2 ^ 52 \<le> k \<or> k \<le> - (2 ^ 52)"
    proof cases
      case 1
      then have "2 ^ 52 \<le> k" unfolding k_def by (rule rne_lower)
      then show ?thesis ..
    next
      case 2
      then have "k \<le> - (2 ^ 52)" unfolding k_def by (rule rne_upper)
      then show ?thesis ..
    qed
    then show ?thesis by auto
  next
    case False
    then show ?thesis by (simp add: e_def)
  qed
  have "binary64 (of_int k * 2 powi (e - 52)) = of_int k * 2 powi (e - 52)"
    using e k53 low by (rule binary64_fixed)
  then show ?thesis by (simp only: b)
qed

lemma binary64_0: "binary64 0 = 0"
  by (simp add: binary64_def)

lemma binary64_1: "binary64 1 = 1"
  by code_simp

text \<open>The doubles Python prints as \<open>0.1\<close> and, for \<open>1000 / 12\<close>, as \<open>83.33333333333333\<close>.\<close>

lemma binary64_tenth: "binary64 (1 / 10) = 3602879701896397 / 36028797018963968"
  by code_simp

lemma binary64_twelfth: "binary64 (1000 / 12) = 5864062014805333 / 70368744177664"
  by code_simp

subsection \<open>The zero rate in a rounding arithmetic\<close>

lemma zero_rate_rows:
  assumes zero: "rnd ar 0 = 0"
    and idem: "\<And>x. rnd ar (rnd ar x) = rnd ar x" and y: "y \<noteq> 0"
  shows "\<exists>s. create_amortization_schedule ar p 0 y = Inr s \<and>
           length (Interest_Payment s) = nat (y * 12) \<and>
           length (Principal_Payment s) = nat (y * 12) \<and>
           (\<forall>i. i < nat (y * 12) \<longrightarrow>
              Interest_Payment s ! i = 0 \<and>
              Principal_Payment s ! i = rnd ar (p / real_of_int (y * 12)))"
proof -
  let ?m = "rnd ar (p / real_of_int (y * 12))"
  have r: "rnd ar (rnd ar (0 / 100) / 12) = 0" by (simp add: zero)
  have m: "calculate_monthly_payment ar p 0 y = Inr ?m"
    using y by (simp add: calculate_monthly_payment_def py_truediv_def zero)
  from schedule_rows_any [OF m] obtain s where
    s: "create_amortization_schedule ar p 0 y = Inr s"
    and len: "length (Interest_Payment s) = nat (y * 12)"
      "length (Principal_Payment s) = nat (y * 12)"
    and rows: "\<forall>i. i < nat (y * 12) \<longrightarrow>
      Interest_Payment s ! i =
        rnd ar (running_balance ar p ?m (rnd ar (rnd ar (0 / 100) / 12)) i *
          rnd ar (rnd ar (0 / 100) / 12)) \<and>
      Principal_Payment s ! i = rnd ar (?m - Interest_Payment s ! i)"
    by blast
  have "Interest_Payment s ! i = 0 \<and> Principal_Payment s ! i = ?m" if "i < nat (y * 12)" for i
  proof -
    from rows that have i: "Interest_Payment s ! i =
        rnd ar (running_balance ar p ?m (rnd ar (rnd ar (0 / 100) / 12)) i *
          rnd ar (rnd ar (0 / 100) / 12))"
      and pp: "Principal_Payment s ! i = rnd ar (?m - Interest_Payment s ! i)"
      by blast+
    from i have "Interest_Payment s ! i = 0" by (simp only: r mult_zero_right zero)
    moreover from this pp have "Principal_Payment s ! i = ?m" by (simp only: diff_zero idem)
    ultimately show ?thesis ..
  qed
  with s len show ?thesis by blast
qed

subsection \<open>A rate that vanishes against 1\<close>

text \<open>
  An annual rate of \<open>1e-13\<close> percent: the monthly rate is a positive double, and
  adding it to 1 gives 1 again.
\<close>

lemma tiny_monthly_rate:
  "binary64 (binary64 (binary64 (1 / 10 ^ 13) / 100) / 12) =
     845100400152153 / 10141204801825835211973625643008"
  by code_simp

lemma tiny_rate_absorbed:
  "binary64 (1 + 845100400152153 / 10141204801825835211973625643008) = 1"
  by code_simp

lemma tiny_rate_any_power:
  assumes "rnd ar = binary64" "pw ar 1 360 = 1"
  shows "calculate_monthly_payment ar 300000 (binary64 (1 / 10 ^ 13)) 30 =
           Inl ZeroDivisionError"
proof -
  have "py_pow ar 1 (30 * 12) = Inr 1"
    using assms(2) by (simp add: py_pow_def)
  then show ?thesis
    unfolding calculate_monthly_payment_def Let_def assms(1) tiny_monthly_rate
      tiny_rate_absorbed
    by (simp add: py_truediv_def assms(1) binary64_0)
qed



subsection \<open>A zero rate over one year\<close>

text \<open>
  A loan of 1100 at a zero rate over one year, on doubles: the payment is the double
  next to \<open>1100 / 12\<close>, and twelve subtractions of it, each rounded, leave
  \<open>5 / 2 ^ 45\<close>, about \<open>1.4e-13\<close>.
\<close>

lemma payment_1100: "binary64 (1100 / 12) = 6450468216285867 / 70368744177664"
  by code_simp

lemma payment_1100_double:
  "binary64 (6450468216285867 / 70368744177664) =
     6450468216285867 / 70368744177664"
  using binary64_idem [of "1100 / 12"] by (simp only: payment_1100)

lemma zero_rate_step:
  assumes "binary64 m = m"
  shows "running_balance binary64_arith p m 0 (Suc k) =
           binary64 (running_balance binary64_arith p m 0 k - m)"
  by (simp add: binary64_arith_def binary64_0 assms)

lemma subtract_1:
  "binary64 (1100 - 6450468216285867 / 70368744177664) =
     8869393797393067 / 8796093022208"
  by code_simp

lemma subtract_2:
  "binary64 (8869393797393067 / 8796093022208 - 6450468216285867 / 70368744177664) =
     4031542635178667 / 4398046511104"
  by code_simp

lemma subtract_3:
  "binary64 (4031542635178667 / 4398046511104 - 6450468216285867 / 70368744177664) =
     7256776743321601 / 8796093022208"
  by code_simp

lemma subtract_4:
  "binary64 (7256776743321601 / 8796093022208 - 6450468216285867 / 70368744177664) =
     1612617054071467 / 2199023255552"
  by code_simp

lemma subtract_5:
  "binary64 (1612617054071467 / 2199023255552 - 6450468216285867 / 70368744177664) =
     5644159689250135 / 8796093022208"
  by code_simp

lemma subtract_6:
  "binary64 (5644159689250135 / 8796093022208 - 6450468216285867 / 70368744177664) =
     2418925581107201 / 4398046511104"
  by code_simp

lemma subtract_7:
  "binary64 (2418925581107201 / 4398046511104 - 6450468216285867 / 70368744177664) =
     8063085270357337 / 17592186044416"
  by code_simp

lemma subtract_8:
  "binary64 (8063085270357337 / 17592186044416 - 6450468216285867 / 70368744177664) =
     3225234108142935 / 8796093022208"
  by code_simp

lemma subtract_9:
  "binary64 (3225234108142935 / 8796093022208 - 6450468216285867 / 70368744177664) =
     4837851162214403 / 17592186044416"
  by code_simp

lemma subtract_10:
  "binary64 (4837851162214403 / 17592186044416 - 6450468216285867 / 70368744177664) =
     403154263517867 / 2199023255552"
  by code_simp

lemma subtract_11:
  "binary64 (403154263517867 / 2199023255552 - 6450468216285867 / 70368744177664) =
     6450468216285877 / 70368744177664"
  by code_simp

lemma subtract_12:
  "binary64 (6450468216285877 / 70368744177664 - 6450468216285867 / 70368744177664) =
     5 / 35184372088832"
  by code_simp

lemma balance_1100_0:
  "running_balance binary64_arith 1100 (6450468216285867 / 70368744177664) 0 0 =
     1100"
  by simp

lemma balance_1100_1:
  "running_balance binary64_arith 1100 (6450468216285867 / 70368744177664) 0 1 =
     8869393797393067 / 8796093022208"
proof -
  have suc: "(1::nat) = Suc 0" by simp
  show ?thesis
    unfolding suc
    by (simp only: zero_rate_step [OF payment_1100_double] balance_1100_0 subtract_1)
qed

lemma balance_1100_2:
  "running_balance binary64_arith 1100 (6450468216285867 / 70368744177664) 0 2 =
     4031542635178667 / 4398046511104"
proof -
  have suc: "(2::nat) = Suc 1" by simp
  show ?thesis
    unfolding suc
    by (simp only: zero_rate_step [OF payment_1100_double] balance_1100_1 subtract_2)
qed

lemma balance_1100_3:
  "running_balance binary64_arith 1100 (6450468216285867 / 70368744177664) 0 3 =
     7256776743321601 / 8796093022208"
proof -
  have suc: "(3::nat) = Suc 2" by simp
  show ?thesis
    unfolding suc
    by (simp only: zero_rate_step [OF payment_1100_double] balance_1100_2 subtract_3)
qed

lemma balance_1100_4:
  "running_balance binary64_arith 1100 (6450468216285867 / 70368744177664) 0 4 =
     1612617054071467 / 2199023255552"
proof -
  have suc: "(4::nat) = Suc 3" by simp
  show ?thesis
    unfolding suc
    by (simp only: zero_rate_step [OF payment_1100_double] balance_1100_3 subtract_4)
qed

lemma balance_1100_5:
  "running_balance binary64_arith 1100 (6450468216285867 / 70368744177664) 0 5 =
     5644159689250135 / 8796093022208"
proof -
  have suc: "(5::nat) = Suc 4" by simp
  show ?thesis
    unfolding suc
    by (simp only: zero_rate_step [OF payment_1100_double] balance_1100_4 subtract_5)
qed

lemma balance_1100_6:
  "running_balance binary64_arith 1100 (6450468216285867 / 70368744177664) 0 6 =
     2418925581107201 / 4398046511104"
proof -
  have suc: "(6::nat) = Suc 5" by simp
  show ?thesis
    unfolding suc
    by (simp only: zero_rate_step [OF payment_1100_double] balance_1100_5 subtract_6)
qed

lemma balance_1100_7:
  "running_balance binary64_arith 1100 (6450468216285867 / 70368744177664) 0 7 =
     8063085270357337 / 17592186044416"
proof -
  have suc: "(7::nat) = Suc 6" by simp
  show ?thesis
    unfolding suc
    by (simp only: zero_rate_step [OF payment_1100_double] balance_1100_6 subtract_7)
qed

lemma balance_1100_8:
  "running_balance binary64_arith 1100 (6450468216285867 / 70368744177664) 0 8 =
     3225234108142935 / 8796093022208"
proof -
  have suc: "(8::nat) = Suc 7" by simp
  show ?thesis
    unfolding suc
    by (simp only: zero_rate_step [OF payment_1100_double] balance_1100_7 subtract_8)
qed

lemma balance_1100_9:
  "running_balance binary64_arith 1100 (6450468216285867 / 70368744177664) 0 9 =
     4837851162214403 / 17592186044416"
proof -
  have suc: "(9::nat) = Suc 8" by simp
  show ?thesis
    unfolding suc
    by (simp only: zero_rate_step [OF payment_1100_double] balance_1100_8 subtract_9)
qed

lemma balance_1100_10:
  "running_balance binary64_arith 1100 (6450468216285867 / 70368744177664) 0 10 =
     403154263517867 / 2199023255552"
proof -
  have suc: "(10::nat) = Suc 9" by simp
  show ?thesis
    unfolding suc
    by (simp only: zero_rate_step [OF payment_1100_double] balance_1100_9 subtract_10)
qed

lemma balance_1100_11:
  "running_balance binary64_arith 1100 (6450468216285867 / 70368744177664) 0 11 =
     6450468216285877 / 70368744177664"
proof -
  have suc: "(11::nat) = Suc 10" by simp
  show ?thesis
    unfolding suc
    by (simp only: zero_rate_step [OF payment_1100_double] balance_1100_10 subtract_11)
qed

lemma balance_1100_12:
  "running_balance binary64_arith 1100 (6450468216285867 / 70368744177664) 0 12 =
     5 / 35184372088832"
proof -
  have suc: "(12::nat) = Suc 11" by simp
  show ?thesis
    unfolding suc
    by (simp only: zero_rate_step [OF payment_1100_double] balance_1100_11 subtract_12)
qed

lemma monthly_payment_1100:
  "calculate_monthly_payment binary64_arith 1100 0 1 =
     Inr (6450468216285867 / 70368744177664)"
proof -
  have "binary64 (1100 / real_of_int (1 * 12)) = 6450468216285867 / 70368744177664"
    using payment_1100 by simp
  then show ?thesis
    by (simp add: calculate_monthly_payment_def py_truediv_def binary64_arith_def binary64_0)
qed

subsection \<open>A rate of 1200 percent\<close>

text \<open>
  A loan of 1000 at an annual rate of 1200 percent over five years, on doubles: the
  monthly rate is 1, the power \<open>2 ^ 60\<close>, and the denominator \<open>2 ^ 60 - 1\<close> rounds to
  \<open>2 ^ 60\<close>, so the payment is 1000, all of it interest, and the balance never moves.
\<close>

lemma rate_1200: "binary64 (binary64 (1200 / 100) / 12) = 1"
  by code_simp

lemma two_double: "binary64 (1 + 1) = 2"
  by code_simp

lemma power_60_double: "binary64 (2 powi (5 * 12)) = 2 ^ 60"
  by code_simp

lemma denominator_60: "binary64 (2 ^ 60 - 1) = 2 ^ 60"
  by code_simp

lemma numerator_60: "binary64 (1000 * binary64 (2 ^ 60)) = 1000 * 2 ^ 60"
  by code_simp

lemma binary64_1000: "binary64 1000 = 1000"
  by code_simp

lemma monthly_payment_1200:
  "calculate_monthly_payment binary64_arith 1000 1200 5 = Inr 1000"
proof -
  have r: "rnd binary64_arith (rnd binary64_arith (1200 / 100) / 12) = 1"
    by (simp only: binary64_arith_def arith.simps rate_1200)
  have c: "py_pow binary64_arith (rnd binary64_arith (1 + 1)) (5 * 12) = Inr (2 ^ 60)"
    by (simp only: binary64_arith_def arith.simps two_double py_pow_def power_60_double) simp
  show ?thesis
    unfolding calculate_monthly_payment_def Let_def r c
    by (simp add: py_truediv_def binary64_arith_def numerator_60 denominator_60 binary64_1000
        del: power_numeral)
qed

lemma balance_1200: "running_balance binary64_arith 1000 1000 1 k = 1000"
  by (induction k) (simp_all add: binary64_arith_def binary64_0 binary64_1000)

lemma columns_1200:
  "create_amortization_schedule binary64_arith 1000 1200 5 =
     Inr \<lparr>Payment_Number = [1..60], Payment_Amount = replicate 60 1000,
          Principal_Payment = replicate 60 0, Interest_Payment = replicate 60 1000,
          Remaining_Balance = replicate 60 1000\<rparr>"
proof -
  have r: "rnd binary64_arith (rnd binary64_arith (1200 / 100) / 12) = 1"
    by (simp only: binary64_arith_def arith.simps rate_1200)
  have n: "nat (5 * 12) = 60" by simp
  show ?thesis
    by (simp only: create_columns [OF monthly_payment_1200] r balance_1200 n)
      (simp add: binary64_arith_def binary64_0 binary64_1000 map_replicate_const)
qed

subsection \<open>A zero rate over ten years\<close>

text \<open>
  A loan of 100000 at a zero rate over ten years, on doubles: the payment is the
  double next to \<open>100000 / 120\<close>, which is above it; times 10 and then times 12, each
  product rounded, it gives 100000, while 120 times the payment is more.
\<close>

lemma payment_100000: "binary64 (100000 / 120) = 7330077518506667 / 8796093022208"
  by code_simp

lemma payment_times_10:
  "binary64 (7330077518506667 / 8796093022208 * 10) = 4581298449066667 / 549755813888"
  by code_simp

lemma payment_times_120: "binary64 (4581298449066667 / 549755813888 * 12) = 100000"
  by code_simp

lemma monthly_payment_100000:
  "calculate_monthly_payment binary64_arith 100000 0 10 =
     Inr (7330077518506667 / 8796093022208)"
proof -
  have "binary64 (100000 / real_of_int (10 * 12)) = 7330077518506667 / 8796093022208"
    using payment_100000 by simp
  then show ?thesis
    by (simp add: calculate_monthly_payment_def py_truediv_def binary64_arith_def binary64_0)
qed

section \<open>The claims\<close>




text \<open>
  Claim C10, that for every positive rate and every term of at least a year the
  denominator \<open>(1 + monthlyRate) ** numPayments - 1\<close> is positive and the annuity
  branch never divides by zero, on the doubles the program computes with: for a
  principal of 300000, a term of 30 years and an annual rate of \<open>1e-13\<close> percent the
  monthly rate is not zero, so the annuity branch is taken, but \<open>1 + monthly_rate\<close>
  is 1, the denominator is 0 and the division raises \<open>ZeroDivisionError\<close>.
\<close>

theorem tiny_rate_divides_by_zero:
  "calculate_monthly_payment binary64_arith 300000 (binary64 (1 / 10 ^ 13)) 30 =
     Inl ZeroDivisionError"
proof (rule tiny_rate_any_power)
  show "rnd binary64_arith = binary64" by (simp add: binary64_arith_def)
  show "pw binary64_arith 1 360 = 1" by (simp add: binary64_arith_def binary64_1)
qed

text \<open>
  Claim C7. For every valid term, a schedule \<open>create_amortization_schedule\<close> returns,
  in whatever arithmetic, has exactly \<open>termYears * 12\<close> records in each of its five
  columns, and the payment number of the i-th record is i: the numbers are 1, 2, ...,
  in ascending order. In exact arithmetic a schedule is returned whenever the rate is
  not negative.
\<close>

theorem schedule_length_and_numbering:
  assumes "1 \<le> y"
  shows "(\<forall>s. create_amortization_schedule ar p a y = Inr s \<longrightarrow>
            length (Payment_Number s) = nat (y * 12) \<and>
            length (Payment_Amount s) = nat (y * 12) \<and>
            length (Principal_Payment s) = nat (y * 12) \<and>
            length (Interest_Payment s) = nat (y * 12) \<and>
            length (Remaining_Balance s) = nat (y * 12) \<and>
            (\<forall>i. i < nat (y * 12) \<longrightarrow> Payment_Number s ! i = int i + 1)) \<and>
         (0 \<le> a \<longrightarrow> (\<exists>s. create_amortization_schedule exact p a y = Inr s))"
proof (intro conjI allI impI)
  fix s
  assume s: "create_amortization_schedule ar p a y = Inr s"
  then obtain m where m: "calculate_monthly_payment ar p a y = Inr m"
    using calc_of_create by blast
  from schedule_rows_any [OF m] s
  have num: "Payment_Number s = [1..y * 12]"
    and len: "length (Payment_Number s) = nat (y * 12)"
      "length (Payment_Amount s) = nat (y * 12)"
      "length (Principal_Payment s) = nat (y * 12)"
      "length (Interest_Payment s) = nat (y * 12)"
      "length (Remaining_Balance s) = nat (y * 12)"
    by auto
  show "length (Payment_Number s) = nat (y * 12)" by (rule len)
  show "length (Payment_Amount s) = nat (y * 12)" by (rule len)
  show "length (Principal_Payment s) = nat (y * 12)" by (rule len)
  show "length (Interest_Payment s) = nat (y * 12)" by (rule len)
  show "length (Remaining_Balance s) = nat (y * 12)" by (rule len)
  show "Payment_Number s ! i = int i + 1" if "i < nat (y * 12)" for i
    using that by (simp add: num)
next
  assume "0 \<le> a"
  then obtain m where m: "calculate_monthly_payment exact p a y = Inr m"
    using calc_valid_rate assms by blast
  from schedule_rows_any [OF m]
  show "\<exists>s. create_amortization_schedule exact p a y = Inr s" by blast
qed

theorem schedule_length_and_numbering_witness:
  "(1::int) \<le> 1 \<and> (0::real) \<le> 0 \<and>
   (\<exists>s. create_amortization_schedule exact 1200 0 1 = Inr s \<and>
      length (Payment_Number s) = 12 \<and> length (Remaining_Balance s) = 12 \<and>
      Payment_Number s ! 0 = 1 \<and> Payment_Number s ! 11 = 12)"
proof -
  have y: "(1::int) \<le> 1" by simp
  from schedule_length_and_numbering [OF y, where ar = exact and p = 1200 and a = 0]
  obtain s where s: "create_amortization_schedule exact 1200 0 1 = Inr s" by auto
  with schedule_length_and_numbering [OF y, where ar = exact and p = 1200 and a = 0]
  have "length (Payment_Number s) = nat (1 * 12)"
    "length (Remaining_Balance s) = nat (1 * 12)"
    "\<forall>i. i < nat (1 * 12) \<longrightarrow> Payment_Number s ! i = int i + 1"
    by blast+
  with s show ?thesis by simp
qed

text \<open>
  Claim C5. In exact arithmetic, for every valid input and every period of the
  schedule, the principal portion and the interest portion add up exactly to the
  payment amount of the period, which is the constant monthly payment.
\<close>

theorem portions_add_up_to_payment:
  assumes "valid_terms p a y"
  shows "\<exists>m s. calculate_monthly_payment exact p a y = Inr m \<and>
           create_amortization_schedule exact p a y = Inr s \<and>
           (\<forall>i. i < nat (y * 12) \<longrightarrow>
              Principal_Payment s ! i + Interest_Payment s ! i = Payment_Amount s ! i \<and>
              Payment_Amount s ! i = m)"
proof -
  have "0 \<le> a" "1 \<le> y" using assms by (simp_all add: valid_terms_def)
  then obtain m where m: "calculate_monthly_payment exact p a y = Inr m"
    using calc_valid_rate by blast
  show ?thesis
    by (simp add: m create_columns [OF m])
qed

theorem portions_add_up_to_payment_witness:
  "valid_terms 100000 0 10 \<and>
   (\<exists>s. create_amortization_schedule exact 100000 0 10 = Inr s \<and>
      Principal_Payment s ! 7 + Interest_Payment s ! 7 = Payment_Amount s ! 7 \<and>
      Payment_Amount s ! 7 = 100000 / 120)"
proof -
  have v: "valid_terms 100000 0 10" by (simp add: valid_terms_def)
  have m: "calculate_monthly_payment exact 100000 0 10 = Inr (100000 / 120)"
    by (simp add: calculate_monthly_payment_def py_truediv_def)
  from portions_add_up_to_payment [OF v] m v show ?thesis by auto
qed

text \<open>
  Claim C8. With \<open>annualRatePercent = 0\<close> and the other inputs valid, every period of
  the schedule has interest portion 0 and principal portion \<open>principal / numPayments\<close>,
  in exact arithmetic and on doubles, where the quotient is the rounded one the
  payment is computed as.
\<close>

theorem zero_rate_schedule:
  assumes "ar = exact \<or> ar = binary64_arith" "valid_terms p 0 y"
  shows "\<exists>s. create_amortization_schedule ar p 0 y = Inr s \<and>
           length (Interest_Payment s) = nat (y * 12) \<and>
           length (Principal_Payment s) = nat (y * 12) \<and>
           (\<forall>i. i < nat (y * 12) \<longrightarrow>
              Interest_Payment s ! i = 0 \<and>
              Principal_Payment s ! i = rnd ar (p / real_of_int (y * 12)))"
proof -
  have y: "y \<noteq> 0" using assms(2) by (simp add: valid_terms_def)
  from assms(1) have "rnd ar 0 = 0 \<and> (\<forall>x. rnd ar (rnd ar x) = rnd ar x)"
    by (auto simp: binary64_arith_def binary64_0 binary64_idem)
  then show ?thesis using y by (intro zero_rate_rows) simp_all
qed

theorem zero_rate_schedule_witness:
  "valid_terms 100000 0 10 \<and>
   (\<exists>s. create_amortization_schedule exact 100000 0 10 = Inr s \<and>
      length (Interest_Payment s) = 120 \<and>
      Interest_Payment s ! 119 = 0 \<and> Principal_Payment s ! 119 = 100000 / 120) \<and>
   (\<exists>s. create_amortization_schedule binary64_arith 100000 0 10 = Inr s \<and>
      length (Interest_Payment s) = 120 \<and>
      Interest_Payment s ! 119 = 0 \<and> Principal_Payment s ! 119 = binary64 (100000 / 120))"
proof -
  have v: "valid_terms 100000 0 10" by (simp add: valid_terms_def)
  have "\<exists>s. create_amortization_schedule exact 100000 0 10 = Inr s \<and>
      length (Interest_Payment s) = 120 \<and>
      Interest_Payment s ! 119 = 0 \<and> Principal_Payment s ! 119 = 100000 / 120"
    using zero_rate_schedule [of exact 100000 10, OF _ v] by auto
  moreover have "\<exists>s. create_amortization_schedule binary64_arith 100000 0 10 = Inr s \<and>
      length (Interest_Payment s) = 120 \<and>
      Interest_Payment s ! 119 = 0 \<and> Principal_Payment s ! 119 = binary64 (100000 / 120)"
    using zero_rate_schedule [of binary64_arith 100000 10, OF _ v]
    by (auto simp: binary64_arith_def)
  ultimately show ?thesis using v by blast
qed

text \<open>
  Claim C1 as the specification states it, on the doubles the program computes with.
  For a principal of 1100, a zero rate and a term of one year the last recorded,
  clamped balance is not 0 but \<open>5 / 2 ^ 45\<close>, about \<open>1.4e-13\<close>: a residual of the
  rounding, which the clamp keeps because it is positive. For a principal of 1000, an
  annual rate of 1200 percent and a term of five years the principal portions sum
  to 0 and the last recorded balance is 1000.
\<close>

theorem last_balance_not_zero_on_doubles:
  "map_sum id (last \<circ> Remaining_Balance)
     (create_amortization_schedule binary64_arith 1100 0 1) = Inr (5 / 2 ^ 45) \<and>
   map_sum id (sum_list \<circ> Principal_Payment)
     (create_amortization_schedule binary64_arith 1000 1200 5) = Inr 0 \<and>
   map_sum id (last \<circ> Remaining_Balance)
     (create_amortization_schedule binary64_arith 1000 1200 5) = Inr 1000"
proof (intro conjI)
  have r: "rnd binary64_arith (rnd binary64_arith (0 / 100) / 12) = 0"
    by (simp add: binary64_arith_def binary64_0)
  have twelve: "[0..<nat (1 * 12)] = [0..<11] @ [11]"
    by (simp add: upt_rec)
  have "last (map (\<lambda>i. max 0 (running_balance binary64_arith 1100
            (6450468216285867 / 70368744177664) 0 (Suc i))) [0..<nat (1 * 12)]) =
          max 0 (running_balance binary64_arith 1100
            (6450468216285867 / 70368744177664) 0 (Suc 11))"
    by (simp only: twelve map_append last_snoc list.map)
  also have "Suc 11 = 12" by simp
  finally have "last (map (\<lambda>i. max 0 (running_balance binary64_arith 1100
            (6450468216285867 / 70368744177664) 0 (Suc i))) [0..<nat (1 * 12)]) = 5 / 2 ^ 45"
    by (simp only: balance_1100_12) simp
  then show "map_sum id (last \<circ> Remaining_Balance)
      (create_amortization_schedule binary64_arith 1100 0 1) = Inr (5 / 2 ^ 45)"
    by (simp only: create_columns [OF monthly_payment_1100] r map_sum.simps schedule.simps
        comp_apply)
next
  show "map_sum id (sum_list \<circ> Principal_Payment)
      (create_amortization_schedule binary64_arith 1000 1200 5) = Inr 0"
    by (simp add: columns_1200 sum_list_replicate)
next
  show "map_sum id (last \<circ> Remaining_Balance)
      (create_amortization_schedule binary64_arith 1000 1200 5) = Inr 1000"
    by (simp add: columns_1200)
qed

text \<open>
  Claim C1, amended. For every valid input, in exact arithmetic the schedule fully
  amortizes the loan: the principal portions of all periods sum to the principal and
  the last recorded, clamped balance is 0. In every arithmetic the recorded balances
  are not negative.
\<close>

theorem schedule_fully_amortizes:
  assumes "valid_terms p a y"
  shows "(\<exists>s. create_amortization_schedule exact p a y = Inr s \<and>
            sum_list (Principal_Payment s) = p \<and>
            Remaining_Balance s \<noteq> [] \<and> last (Remaining_Balance s) = 0) \<and>
         (\<forall>ar s. create_amortization_schedule ar p a y = Inr s \<longrightarrow>
            (\<forall>b \<in> set (Remaining_Balance s). 0 \<le> b))"
proof
  let ?r = "a / 100 / 12" and ?n = "nat (y * 12)"
  have "0 \<le> a" and y: "1 \<le> y" using assms by (simp_all add: valid_terms_def)
  then obtain m where m: "calculate_monthly_payment exact p a y = Inr m"
    using calc_valid_rate by blast
  have fin: "running_balance exact p m ?r ?n = 0"
    using assms m by (rule final_balance_zero)
  have n: "?n \<noteq> 0" using y by simp
  obtain s where s: "create_amortization_schedule exact p a y = Inr s"
    and len: "length (Remaining_Balance s) = ?n"
    and total: "sum_list (Principal_Payment s) = p - running_balance exact p m ?r ?n"
    and lst: "?n \<noteq> 0 \<longrightarrow>
      last (Remaining_Balance s) = max 0 (running_balance exact p m ?r ?n)"
    using schedule_rows [OF m] by blast
  have "sum_list (Principal_Payment s) = p" using total by (simp only: fin diff_zero)
  moreover have "last (Remaining_Balance s) = 0" using lst n by (simp only: fin) simp
  moreover have "Remaining_Balance s \<noteq> []" using len n by auto
  ultimately show "\<exists>s. create_amortization_schedule exact p a y = Inr s \<and>
      sum_list (Principal_Payment s) = p \<and>
      Remaining_Balance s \<noteq> [] \<and> last (Remaining_Balance s) = 0"
    using s by simp
next
  show "\<forall>ar s. create_amortization_schedule ar p a y = Inr s \<longrightarrow>
      (\<forall>b \<in> set (Remaining_Balance s). 0 \<le> b)"
    using recorded_balances_nonneg by blast
qed

theorem schedule_fully_amortizes_witness:
  "valid_terms 1000 20 1 \<and>
   (\<exists>s. create_amortization_schedule exact 1000 20 1 = Inr s \<and>
      sum_list (Principal_Payment s) = 1000 \<and> last (Remaining_Balance s) = 0 \<and>
      (\<forall>b \<in> set (Remaining_Balance s). 0 \<le> b))"
proof -
  have v: "valid_terms 1000 20 1" by (simp add: valid_terms_def)
  from schedule_fully_amortizes [OF v] v show ?thesis by auto
qed

text \<open>
  Claim C6 as the specification states it, that the recorded balances decrease
  strictly for every valid input, on the doubles the program computes with: for a
  principal of 1000, an annual rate of 1200 percent and a term of five years the
  payment is 1000, positive, and all sixty recorded balances are 1000.
\<close>

theorem balance_stuck_on_doubles:
  "calculate_monthly_payment binary64_arith 1000 1200 5 = Inr 1000 \<and>
   map_sum id Remaining_Balance
     (create_amortization_schedule binary64_arith 1000 1200 5) = Inr (replicate 60 1000)"
  by (simp add: monthly_payment_1200 columns_1200)

text \<open>
  Claim C6, amended. In exact arithmetic, for every valid input the monthly payment
  is positive and the recorded balances decrease strictly: the balance of each period
  after the first is below the one recorded before it (the last one, which is 0,
  included).
\<close>

theorem recorded_balance_decreases:
  assumes "valid_terms p a y"
  shows "\<exists>m s. calculate_monthly_payment exact p a y = Inr m \<and> 0 < m \<and>
           create_amortization_schedule exact p a y = Inr s \<and>
           length (Remaining_Balance s) = nat (y * 12) \<and>
           (\<forall>i. 0 < i \<and> i < nat (y * 12) \<longrightarrow>
              Remaining_Balance s ! i < Remaining_Balance s ! (i - 1))"
proof -
  let ?r = "a / 100 / 12" and ?n = "nat (y * 12)"
  have p: "0 < p" and a: "0 \<le> a" and y: "1 \<le> y"
    using assms by (simp_all add: valid_terms_def)
  then obtain m where m: "calculate_monthly_payment exact p a y = Inr m"
    using calc_valid_rate by blast
  have r: "0 \<le> ?r" using a by simp
  have ex: "0 < m - p * ?r" using assms m by (rule payment_exceeds_interest)
  have "0 \<le> p * ?r" using p r by (intro mult_nonneg_nonneg) simp_all
  with ex have mpos: "0 < m" by simp
  have fin: "running_balance exact p m ?r ?n = 0"
    using assms m by (rule final_balance_zero)
  have nonneg: "0 \<le> running_balance exact p m ?r k" if "k \<le> ?n" for k
    using balance_antimono [OF ex r that] by (simp only: fin)
  obtain s where s: "create_amortization_schedule exact p a y = Inr s"
    and len: "length (Remaining_Balance s) = ?n"
    and rows: "\<forall>i. i < ?n \<longrightarrow>
                 Remaining_Balance s ! i = max 0 (running_balance exact p m ?r (Suc i))"
    using schedule_rows [OF m] by blast
  have "Remaining_Balance s ! i < Remaining_Balance s ! (i - 1)" if "0 < i" "i < ?n" for i
  proof -
    from that(1) obtain j where j: "i = Suc j" by (cases i) simp_all
    have "running_balance exact p m ?r (Suc (Suc j)) < running_balance exact p m ?r (Suc j)"
      using ex r by (rule balance_decreases)
    moreover have "0 \<le> running_balance exact p m ?r (Suc (Suc j))"
      using that(2) j by (intro nonneg) simp
    ultimately have "max 0 (running_balance exact p m ?r (Suc (Suc j))) <
        max 0 (running_balance exact p m ?r (Suc j))"
      by (simp del: running_balance.simps)
    moreover have "Remaining_Balance s ! Suc j = max 0 (running_balance exact p m ?r (Suc (Suc j)))"
      using rows that(2) j by blast
    moreover have "Remaining_Balance s ! j = max 0 (running_balance exact p m ?r (Suc j))"
      using rows that(2) j by simp
    ultimately show ?thesis using j by simp
  qed
  with m mpos s len show ?thesis by blast
qed

theorem recorded_balance_decreases_witness:
  "valid_terms 1000 20 1 \<and>
   (\<exists>s. create_amortization_schedule exact 1000 20 1 = Inr s \<and>
      Remaining_Balance s ! 11 < Remaining_Balance s ! 10 \<and>
      Remaining_Balance s ! 1 < Remaining_Balance s ! 0)"
proof -
  have v: "valid_terms 1000 20 1" by (simp add: valid_terms_def)
  from recorded_balance_decreases [OF v] obtain s where
    "create_amortization_schedule exact 1000 20 1 = Inr s"
    "\<forall>i. 0 < i \<and> i < nat (1 * 12) \<longrightarrow> Remaining_Balance s ! i < Remaining_Balance s ! (i - 1)"
    by blast
  moreover from this(2) have "Remaining_Balance s ! 11 < Remaining_Balance s ! (11 - 1)"
    by (drule_tac x = 11 in spec) simp
  moreover from calculation(2) have "Remaining_Balance s ! 1 < Remaining_Balance s ! (1 - 1)"
    by (drule_tac x = 1 in spec) simp
  ultimately show ?thesis using v by simp
qed

text \<open>
  Claim C2. In whatever arithmetic, the balance the loop carries into each iteration's
  interest computation is the unclamped \<open>running_balance\<close>: the interest of period
  i + 1 is \<open>running_balance i * monthlyRate\<close>, the principal portion the payment less
  that, and only the recorded value is \<open>max 0 (running_balance (i + 1))\<close>; the
  variable the loop ends with is the unclamped balance too. This holds for every input
  on which the payment is computed, also where a balance is negative and the record
  shows 0.
\<close>

theorem unclamped_balance_carried_forward:
  assumes "calculate_monthly_payment ar p a y = Inr m"
  shows "\<exists>s. create_amortization_schedule ar p a y = Inr s \<and>
           (\<forall>i. i < nat (y * 12) \<longrightarrow>
              Interest_Payment s ! i =
                rnd ar (running_balance ar p m (rnd ar (rnd ar (a / 100) / 12)) i *
                  rnd ar (rnd ar (a / 100) / 12)) \<and>
              Principal_Payment s ! i = rnd ar (m - Interest_Payment s ! i) \<and>
              Remaining_Balance s ! i =
                max 0 (running_balance ar p m (rnd ar (rnd ar (a / 100) / 12)) (Suc i))) \<and>
           remaining_balance
               (run_loop ar m (rnd ar (rnd ar (a / 100) / 12)) (y * 12) p) =
             running_balance ar p m (rnd ar (rnd ar (a / 100) / 12)) (nat (y * 12))"
proof -
  let ?r = "rnd ar (rnd ar (a / 100) / 12)"
  have "remaining_balance (run_loop ar m ?r (y * 12) p) =
          remaining_balance (run_loop ar m ?r (int (nat (y * 12))) p)"
    by (rule arg_cong [OF run_loop_nat])
  then have "remaining_balance (run_loop ar m ?r (y * 12) p) =
          running_balance ar p m ?r (nat (y * 12))"
    by (simp only: run_loop_balance)
  with schedule_rows_any [OF assms] show ?thesis by blast
qed

theorem unclamped_balance_carried_forward_witness:
  "calculate_monthly_payment exact (- 1200) 1200 1 = Inr (- 327680 / 273) \<and>
   (\<exists>s. create_amortization_schedule exact (- 1200) 1200 1 = Inr s \<and>
      Remaining_Balance s ! 0 = 0 \<and> Interest_Payment s ! 1 = - 327520 / 273)"
proof -
  have m: "calculate_monthly_payment exact (- 1200) 1200 1 = Inr (- 327680 / 273)"
    by (simp add: calculate_monthly_payment_def py_pow_def py_truediv_def pw_exact)
  from unclamped_balance_carried_forward [OF m] obtain s where
    s: "create_amortization_schedule exact (- 1200) 1200 1 = Inr s"
    and rows: "\<forall>i. i < nat (1 * 12) \<longrightarrow>
      Interest_Payment s ! i =
        rnd exact (running_balance exact (- 1200) (- 327680 / 273)
          (rnd exact (rnd exact (1200 / 100) / 12)) i *
            rnd exact (rnd exact (1200 / 100) / 12)) \<and>
      Remaining_Balance s ! i =
        max 0 (running_balance exact (- 1200) (- 327680 / 273)
          (rnd exact (rnd exact (1200 / 100) / 12)) (Suc i))"
    by blast
  from rows have "Remaining_Balance s ! 0 = 0"
    by (drule_tac x = 0 in spec) simp
  moreover from rows have "Interest_Payment s ! 1 = - 327520 / 273"
    by (drule_tac x = 1 in spec) simp
  ultimately show ?thesis using m s by simp
qed

text \<open>
  Claim C9 as the specification states it, that the total paid is the monthly payment
  times the number of periods and equals the sum of the payment amounts of the
  schedule, fails on the doubles the program computes with. For a principal of
  100000, a zero rate and a term of 10 years the main block computes a total paid of
  100000, while the 120 payment amounts of the schedule, each the double next to
  \<open>100000 / 120\<close>, add up to \<open>100000 + 5 / 1099511627776\<close>.
\<close>

theorem total_paid_not_the_sum_on_doubles:
  "map_sum id Total_Paid (main_calculation binary64_arith 100000 0 10) = Inr 100000 \<and>
   map_sum id (sum_list \<circ> Payment_Amount \<circ> Schedule)
     (main_calculation binary64_arith 100000 0 10) =
     Inr (109951162777600005 / 1099511627776)"
proof -
  obtain r where r: "main_calculation binary64_arith 100000 0 10 = Inr r"
    using main_returns [OF monthly_payment_100000] by auto
  from main_parts [OF r] monthly_payment_100000
  have m: "Monthly_Payment r = 7330077518506667 / 8796093022208"
    and t: "Total_Paid r = rnd binary64_arith
        (rnd binary64_arith (Monthly_Payment r * real_of_int 10) * 12)"
    and c: "Payment_Amount (Schedule r) = replicate (nat (10 * 12)) (Monthly_Payment r)"
    by simp_all
  have "Total_Paid r = binary64 (binary64 (7330077518506667 / 8796093022208 * 10) * 12)"
    using t by (simp add: m binary64_arith_def)
  then have tp: "Total_Paid r = 100000"
    by (simp only: payment_times_10 payment_times_120)
  have "sum_list (Payment_Amount (Schedule r)) = 109951162777600005 / 1099511627776"
    by (simp add: c m sum_list_replicate)
  with tp show ?thesis by (simp add: r)
qed

text \<open>
  Claim C9, as the source has it. For every valid input, whatever the main block
  returns, in any arithmetic, has the monthly payment and the schedule of the two
  functions, the total paid \<open>monthly_payment * loan_years * 12\<close> with each of the
  two products rounded, the total interest the rounded difference of the total paid
  and the principal, and a payment column that holds the monthly payment
  \<open>termYears * 12\<close> times. In exact arithmetic the main block returns, the total paid
  is the monthly payment times the number of periods and the sum of the payment
  amounts of the schedule, and the total interest is the total paid less the
  principal.
\<close>

theorem summary_statistics:
  assumes "valid_terms p a y"
  shows "(\<forall>ar r. main_calculation ar p a y = Inr r \<longrightarrow>
            calculate_monthly_payment ar p a y = Inr (Monthly_Payment r) \<and>
            create_amortization_schedule ar p a y = Inr (Schedule r) \<and>
            Total_Paid r = rnd ar (rnd ar (Monthly_Payment r * real_of_int y) * 12) \<and>
            Total_Interest r = rnd ar (Total_Paid r - p) \<and>
            Payment_Amount (Schedule r) = replicate (nat (y * 12)) (Monthly_Payment r)) \<and>
         (\<exists>r. main_calculation exact p a y = Inr r \<and>
            Total_Paid r = Monthly_Payment r * real_of_int (y * 12) \<and>
            Total_Paid r = sum_list (Payment_Amount (Schedule r)) \<and>
            Total_Interest r = Total_Paid r - p)"
proof
  show "\<forall>ar r. main_calculation ar p a y = Inr r \<longrightarrow>
      calculate_monthly_payment ar p a y = Inr (Monthly_Payment r) \<and>
      create_amortization_schedule ar p a y = Inr (Schedule r) \<and>
      Total_Paid r = rnd ar (rnd ar (Monthly_Payment r * real_of_int y) * 12) \<and>
      Total_Interest r = rnd ar (Total_Paid r - p) \<and>
      Payment_Amount (Schedule r) = replicate (nat (y * 12)) (Monthly_Payment r)"
    using main_parts by blast
next
  have p: "p \<noteq> 0" and "0 \<le> a" and y: "1 \<le> y"
    using assms by (simp_all add: valid_terms_def)
  then obtain m where m: "calculate_monthly_payment exact p a y = Inr m"
    using calc_valid_rate by blast
  obtain r where r: "main_calculation exact p a y = Inr r"
    using main_returns [OF m p] by blast
  note parts = main_parts [OF r]
  have n: "real (nat (y * 12)) = real_of_int (y * 12)" using y by simp
  have tp: "Total_Paid r = Monthly_Payment r * real_of_int (y * 12)"
    using parts by (simp add: mult.assoc)
  moreover have "sum_list (Payment_Amount (Schedule r)) = real (nat (y * 12)) * Monthly_Payment r"
    using parts by (simp add: sum_list_replicate)
  then have "Total_Paid r = sum_list (Payment_Amount (Schedule r))"
    using tp by (simp only: n mult.commute)
  moreover have "Total_Interest r = Total_Paid r - p" using parts by simp
  ultimately show "\<exists>r. main_calculation exact p a y = Inr r \<and>
      Total_Paid r = Monthly_Payment r * real_of_int (y * 12) \<and>
      Total_Paid r = sum_list (Payment_Amount (Schedule r)) \<and>
      Total_Interest r = Total_Paid r - p"
    using r by blast
qed

theorem summary_statistics_witness:
  "valid_terms 100000 0 10 \<and>
   (\<exists>r. main_calculation exact 100000 0 10 = Inr r \<and> Total_Paid r = 100000 \<and>
      Total_Paid r = sum_list (Payment_Amount (Schedule r)) \<and> Total_Interest r = 0) \<and>
   (\<exists>r. main_calculation binary64_arith 100000 0 10 = Inr r \<and>
      Total_Paid r = binary64 (binary64 (Monthly_Payment r * 10) * 12) \<and>
      Payment_Amount (Schedule r) = replicate 120 (Monthly_Payment r))"
proof -
  have v: "valid_terms 100000 0 10" by (simp add: valid_terms_def)
  have m: "calculate_monthly_payment exact 100000 0 10 = Inr (100000 / 120)"
    by (simp add: calculate_monthly_payment_def py_truediv_def)
  note st = summary_statistics [OF v]
  from st obtain r where
    r: "main_calculation exact 100000 0 10 = Inr r"
      "Total_Paid r = Monthly_Payment r * real_of_int (10 * 12)"
      "Total_Paid r = sum_list (Payment_Amount (Schedule r))"
      "Total_Interest r = Total_Paid r - 100000"
    by blast
  from st r(1) have "calculate_monthly_payment exact 100000 0 10 = Inr (Monthly_Payment r)"
    by blast
  with m have "Monthly_Payment r = 100000 / 120" by simp
  with r(2) have "Total_Paid r = 100000" by simp
  with r have e: "\<exists>r. main_calculation exact 100000 0 10 = Inr r \<and> Total_Paid r = 100000 \<and>
      Total_Paid r = sum_list (Payment_Amount (Schedule r)) \<and> Total_Interest r = 0"
    by auto
  obtain q where q: "main_calculation binary64_arith 100000 0 10 = Inr q"
    using main_returns [OF monthly_payment_100000] by auto
  with st have "Total_Paid q =
      rnd binary64_arith (rnd binary64_arith (Monthly_Payment q * real_of_int 10) * 12)"
    "Payment_Amount (Schedule q) = replicate (nat (10 * 12)) (Monthly_Payment q)"
    by blast+
  then have "Total_Paid q = binary64 (binary64 (Monthly_Payment q * 10) * 12)"
    "Payment_Amount (Schedule q) = replicate 120 (Monthly_Payment q)"
    by (simp_all add: binary64_arith_def)
  with q have "\<exists>r. main_calculation binary64_arith 100000 0 10 = Inr r \<and>
      Total_Paid r = binary64 (binary64 (Monthly_Payment r * 10) * 12) \<and>
      Payment_Amount (Schedule r) = replicate 120 (Monthly_Payment r)"
    by blast
  with v e show ?thesis by blast
qed

text \<open>
  Claim C4 as the specification states it, that a term of zero years is guarded and
  reported as invalid input, fails, in exact arithmetic as on doubles: the division by
  zero is reached.
\<close>

theorem zero_term_divides_by_zero:
  "calculate_monthly_payment exact 1000 0 0 = Inl ZeroDivisionError \<and>
   calculate_monthly_payment binary64_arith 1000 0 0 = Inl ZeroDivisionError"
  by (simp add: calculate_monthly_payment_def py_truediv_def binary64_arith_def binary64_0)

text \<open>
  Claim C4, as the source has it. \<open>calculate_monthly_payment\<close> has no guard for a
  term that is not positive: with a zero rate and \<open>termYears = 0\<close> the division
  \<open>principal / num_payments\<close> raises \<open>ZeroDivisionError\<close>, and with a negative
  term it returns \<open>principal / (termYears * 12)\<close>, a payment over a negative number of
  payments, without any error. This holds in every arithmetic that rounds 0 to 0.
\<close>

theorem out_of_domain_term_unguarded:
  assumes "rnd ar 0 = 0" "y \<le> 0"
  shows "calculate_monthly_payment ar p 0 y =
           (if y = 0 then Inl ZeroDivisionError
            else Inr (rnd ar (p / real_of_int (y * 12))))"
  using assms by (simp add: calculate_monthly_payment_def py_truediv_def)

theorem out_of_domain_term_unguarded_witness:
  "rnd exact 0 = 0 \<and>
   (0::int) \<le> 0 \<and> calculate_monthly_payment exact 1000 0 0 = Inl ZeroDivisionError \<and>
   (- 1::int) \<le> 0 \<and> calculate_monthly_payment exact 1000 0 (- 1) = Inr (- (1000 / 12))"
  using out_of_domain_term_unguarded [of exact 0 1000]
    out_of_domain_term_unguarded [of exact "- 1" 1000]
  by simp

end
